theory Spec2Isabelle
  imports Main "HOL-Library.Word"
begin

section \<open>Data model: colors, pieces, squares, bitboards, moves\<close>

text \<open>
  \<^verbatim>\<open>cli.cc\<close> uses the types \<^verbatim>\<open>Color\<close>, \<^verbatim>\<open>PieceType\<close>, \<^verbatim>\<open>Piece\<close>, \<^verbatim>\<open>Square\<close>,
  \<^verbatim>\<open>Bitboard\<close> and \<^verbatim>\<open>Move\<close>, whose headers are not part of the sources at hand.
  They are modelled below after the data model of the specification (section 3).
\<close>

datatype Color = kBlack | kWhite

text \<open>\<^verbatim>\<open>operator~\<close> on a color: the opponent.\<close>

fun opp :: "Color \<Rightarrow> Color" where
  "opp kBlack = kWhite"
| "opp kWhite = kBlack"

datatype PieceType =
    kPawn | kLance | kKnight | kSilver | kGold | kBishop | kRook | kKing
  | kPPawn | kPLance | kPKnight | kPSilver | kHorse | kDragon

datatype Piece = Piece (color: Color) (type: PieceType)

text \<open>
  Modelled from the spec: \<^verbatim>\<open>Piece::all_pieces()\<close> (piece.h is missing).  A piece is a
  (type, color) pair whose type ranges over pawn, lance, knight, silver, gold, bishop, rook,
  king and the promoted forms; the enumeration visits each pair once.
\<close>

definition all_piece_types :: "PieceType list" where
  "all_piece_types =
     [kPawn, kLance, kKnight, kSilver, kGold, kBishop, kRook, kKing,
      kPPawn, kPLance, kPKnight, kPSilver, kHorse, kDragon]"

definition all_pieces :: "Piece list" where
  "all_pieces = concat (map (\<lambda>c. map (Piece c) all_piece_types) [kBlack, kWhite])"

text \<open>
  Modelled from the spec: a \<^verbatim>\<open>Square\<close> (square.h is missing) is one of the 81 cells of the
  9x9 board, addressed by file and rank, both counted from 1 to 9.
\<close>

datatype Square = Square (file_of: nat) (rank_of: nat)

definition all_squares :: "Square list" where
  "all_squares = concat (map (\<lambda>f. map (Square f) [1..<10]) [1..<10])"

text \<open>
  The rank of a square as the given color sees it: rank 1 is the farthest rank of that
  color (the far edge of the opponent's camp), rank 9 its own back rank.  Black plays
  towards rank 1, White towards rank 9.
\<close>

fun relative_rank :: "Color \<Rightarrow> Square \<Rightarrow> nat" where
  "relative_rank kBlack sq = rank_of sq"
| "relative_rank kWhite sq = 10 - rank_of sq"

text \<open>
  Modelled from the spec: \<^verbatim>\<open>Square::is_promotion_zone_of(Color)\<close>.  The promotion zone of
  a color is made of the three ranks nearest the opponent's side.
\<close>

definition is_promotion_zone_of :: "Square \<Rightarrow> Color \<Rightarrow> bool" where
  "is_promotion_zone_of sq c \<longleftrightarrow> relative_rank c sq \<le> 3"

text \<open>
  Modelled from the spec: a \<^verbatim>\<open>Bitboard\<close> (bitboard.h is missing) is an 81-bit set of
  squares.  It is represented by its membership test; \<^verbatim>\<open>ForEach\<close> visits the set bits,
  and only the 81 legal positions can ever be visited.
\<close>

type_synonym Bitboard = "Square \<Rightarrow> bool"

definition board_bb :: Bitboard where
  "board_bb = (\<lambda>sq. sq \<in> set all_squares)"

definition bb_and :: "Bitboard \<Rightarrow> Bitboard \<Rightarrow> Bitboard" where
  "bb_and a b = (\<lambda>sq. a sq \<and> b sq)"

definition ForEach :: "Bitboard \<Rightarrow> Square list" where
  "ForEach bb = filter bb all_squares"

text \<open>
  Modelled from the spec: the template \<^verbatim>\<open>rank_bb<lo, hi>(color)\<close>, the squares whose rank,
  seen from \<open>color\<close>, lies between \<open>lo\<close> and \<open>hi\<close>.  With this reading the masks of
  \<^verbatim>\<open>ComputeAllPossibleQuietMoves\<close> are the restrictions of the specification
  (section 4.2, (c) and (d)) and of the comment above the function.
\<close>

definition rank_bb :: "nat \<Rightarrow> nat \<Rightarrow> Color \<Rightarrow> Bitboard" where
  "rank_bb lo hi c = (\<lambda>sq. lo \<le> relative_rank c sq \<and> relative_rank c sq \<le> hi)"

text \<open>
  A \<^verbatim>\<open>Move\<close> is a tagged value: a board move (piece, origin, destination, promote flag)
  or a drop (piece, destination).  \<^verbatim>\<open>Move(piece, from, to)\<close> builds a board move that does
  not promote, \<^verbatim>\<open>Move(c, kSilver, from, to, true)\<close> a promoting one, \<^verbatim>\<open>Move(piece, to)\<close>
  a drop.
\<close>

datatype Move =
    BoardMove Piece Square Square bool
  | DropMove Piece Square

text \<open>The promote flag of a move; a drop never promotes.\<close>

fun is_promotion :: "Move \<Rightarrow> bool" where
  "is_promotion (BoardMove p f t pr) = pr"
| "is_promotion (DropMove p t) = False"

text \<open>A move whose squares are among the 81 squares of the board.\<close>

fun on_board :: "Move \<Rightarrow> bool" where
  "on_board (BoardMove p f t pr) \<longleftrightarrow> f \<in> set all_squares \<and> t \<in> set all_squares"
| "on_board (DropMove p t) \<longleftrightarrow> t \<in> set all_squares"

section \<open>ComputeAllPossibleQuietMoves\<close>

text \<open>
  The maximal attack table \<^verbatim>\<open>max_attacks_bb\<close>, the predicate \<^verbatim>\<open>Piece::is_droppable\<close> and
  the encoding \<^verbatim>\<open>Move::ToUint32\<close> are defined outside \<^verbatim>\<open>cli.cc\<close>; the model takes them as
  the parameters \<open>att\<close>, \<open>drp\<close> and \<open>enc\<close>.
\<close>

text \<open>Lines 348-353: the origins kept for the non-promoting moves of a piece.\<close>

definition quiet_from_bb :: "Piece \<Rightarrow> Bitboard" where
  "quiet_from_bb p =
     (case type p of
        kBishop \<Rightarrow> bb_and board_bb (rank_bb 4 9 (color p))
      | kRook \<Rightarrow> bb_and board_bb (rank_bb 4 9 (color p))
      | _ \<Rightarrow> board_bb)"

text \<open>Lines 355-363: the destinations kept for the non-promoting moves of a piece.\<close>

definition quiet_target :: "Piece \<Rightarrow> Bitboard" where
  "quiet_target p =
     (case type p of
        kPawn \<Rightarrow> bb_and board_bb (rank_bb 4 9 (color p))
      | kLance \<Rightarrow> bb_and board_bb (rank_bb 3 9 (color p))
      | kKnight \<Rightarrow> bb_and board_bb (rank_bb 3 9 (color p))
      | kBishop \<Rightarrow> bb_and board_bb (rank_bb 4 9 (color p))
      | kRook \<Rightarrow> bb_and board_bb (rank_bb 4 9 (color p))
      | _ \<Rightarrow> board_bb)"

text \<open>Lines 343-371, pass 1: the moves without promotion.\<close>

definition non_promotions :: "(Piece \<Rightarrow> Square \<Rightarrow> Bitboard) \<Rightarrow> Move list" where
  "non_promotions att =
     concat (map (\<lambda>p.
       concat (map (\<lambda>from.
         map (\<lambda>to. BoardMove p from to False)
             (ForEach (bb_and (att p from) (quiet_target p))))
         (ForEach (quiet_from_bb p))))
       all_pieces)"

text \<open>Lines 373-383, pass 2: the promotions of a silver.\<close>

definition silver_promotions :: "(Piece \<Rightarrow> Square \<Rightarrow> Bitboard) \<Rightarrow> Move list" where
  "silver_promotions att =
     concat (map (\<lambda>c.
       concat (map (\<lambda>from.
         map (\<lambda>to. BoardMove (Piece c kSilver) from to True)
             (filter (\<lambda>to. is_promotion_zone_of to c \<or> is_promotion_zone_of from c)
                     (ForEach (att (Piece c kSilver) from))))
         all_squares))
       [kBlack, kWhite])"

text \<open>Lines 395-401: the destinations kept for the drops of a piece.\<close>

definition drop_target :: "Piece \<Rightarrow> Bitboard" where
  "drop_target p =
     (case type p of
        kPawn \<Rightarrow> bb_and board_bb (rank_bb 2 9 (color p))
      | kLance \<Rightarrow> bb_and board_bb (rank_bb 2 9 (color p))
      | kKnight \<Rightarrow> bb_and board_bb (rank_bb 3 9 (color p))
      | _ \<Rightarrow> board_bb)"

text \<open>Lines 385-406, pass 3: the drops; a piece that is not droppable is skipped.\<close>

definition drops :: "(Piece \<Rightarrow> bool) \<Rightarrow> Move list" where
  "drops drp =
     concat (map (\<lambda>p. map (\<lambda>to. DropMove p to) (ForEach (drop_target p)))
                 (filter drp all_pieces))"

text \<open>The vector \<^verbatim>\<open>moves\<close> when the three passes are over (line 407).\<close>

definition quiet_moves :: "(Piece \<Rightarrow> Square \<Rightarrow> Bitboard) \<Rightarrow> (Piece \<Rightarrow> bool) \<Rightarrow> Move list" where
  "quiet_moves att drp = non_promotions att @ silver_promotions att @ drops drp"

text \<open>Lines 408-413: the vector \<^verbatim>\<open>values\<close> after \<^verbatim>\<open>std::sort\<close>.\<close>

definition sorted_values ::
  "(Piece \<Rightarrow> Square \<Rightarrow> Bitboard) \<Rightarrow> (Piece \<Rightarrow> bool) \<Rightarrow> (Move \<Rightarrow> 32 word) \<Rightarrow> 32 word list" where
  "sorted_values att drp enc = sort (map enc (quiet_moves att drp))"

text \<open>\<^verbatim>\<open>printf("%08x\n", v)\<close>: eight hexadecimal digits, lower case, and a line feed.\<close>

definition hex_digit :: "nat \<Rightarrow> char" where
  "hex_digit d = (if d < 10 then char_of (48 + d) else char_of (87 + d))"

definition hex08 :: "32 word \<Rightarrow> string" where
  "hex08 v = map (\<lambda>i. hex_digit (unat v div 16 ^ i mod 16)) [7, 6, 5, 4, 3, 2, 1, 0]"

text \<open>Lines 339-419: the text written to the standard output, line by line.\<close>

definition ComputeAllPossibleQuietMoves ::
  "(Piece \<Rightarrow> Square \<Rightarrow> Bitboard) \<Rightarrow> (Piece \<Rightarrow> bool) \<Rightarrow> (Move \<Rightarrow> 32 word) \<Rightarrow> string list" where
  "ComputeAllPossibleQuietMoves att drp enc =
     map (\<lambda>v. hex08 v @ [CHR 0x0A]) (sorted_values att drp enc)"

subsection \<open>Sample tables\<close>

text \<open>
  Concrete tables, on which the statements below are instantiated.  \<open>forward_step\<close> lets
  every piece reach the square in front of it (the maximal attack of a pawn, and a part of
  that of a lance, silver, gold, rook or king); \<open>hand_piece\<close> marks the seven piece types
  that can be held in hand; \<open>packed_move\<close> packs a move into 32 bits: destination
  (7 bits), origin (7 bits), promote flag, drop flag, piece.
\<close>

definition forward_step :: "Piece \<Rightarrow> Square \<Rightarrow> Bitboard" where
  "forward_step p f = (\<lambda>t. file_of t = file_of f
      \<and> relative_rank (color p) t + 1 = relative_rank (color p) f)"

definition hand_piece :: "Piece \<Rightarrow> bool" where
  "hand_piece p \<longleftrightarrow> type p \<in> {kPawn, kLance, kKnight, kSilver, kGold, kBishop, kRook}"

definition sq_index :: "Square \<Rightarrow> nat" where
  "sq_index sq = (file_of sq - 1) * 9 + (rank_of sq - 1)"

fun type_index :: "PieceType \<Rightarrow> nat" where
  "type_index kPawn = 1" | "type_index kLance = 2" | "type_index kKnight = 3"
| "type_index kSilver = 4" | "type_index kGold = 5" | "type_index kBishop = 6"
| "type_index kRook = 7" | "type_index kKing = 8" | "type_index kPPawn = 9"
| "type_index kPLance = 10" | "type_index kPKnight = 11" | "type_index kPSilver = 12"
| "type_index kHorse = 14" | "type_index kDragon = 15"

definition piece_index :: "Piece \<Rightarrow> nat" where
  "piece_index p = (case color p of kBlack \<Rightarrow> 0 | kWhite \<Rightarrow> 16) + type_index (type p)"

fun move_fields :: "Move \<Rightarrow> nat \<times> nat \<times> nat \<times> nat \<times> nat" where
  "move_fields (BoardMove p f t pr) =
     (sq_index t, sq_index f, if pr then 1 else 0, 0, piece_index p)"
| "move_fields (DropMove p t) = (sq_index t, 0, 0, 1, piece_index p)"

definition move_code :: "Move \<Rightarrow> nat" where
  "move_code m =
     (case move_fields m of (a, b, c, d, e) \<Rightarrow> a + 128 * (b + 128 * (c + 2 * (d + 2 * e))))"

definition packed_move :: "Move \<Rightarrow> 32 word" where
  "packed_move m = word_of_nat (move_code m)"

section \<open>Machine integers\<close>

text \<open>
  The values of the types \<^verbatim>\<open>int\<close> (32 bits) and \<^verbatim>\<open>int64_t\<close> are modelled by mathematical
  integers; \<open>int32\<close> and \<open>int64\<close> wrap an integer into the range of the type, as a
  conversion or an operation that leaves the range does.
\<close>

definition int32 :: "int \<Rightarrow> int" where
  "int32 x = signed_take_bit 31 x"

definition int64 :: "int \<Rightarrow> int" where
  "int64 x = signed_take_bit 63 x"

section \<open>Cli::ExecuteCommand\<close>

text \<open>
  The functions that \<^verbatim>\<open>Cli::ExecuteCommand\<close> calls are benchmarks, learners and
  generators with effects of their own.  The model records what the dispatcher does as the
  list of its actions, in order: a text written by \<^verbatim>\<open>std::printf\<close>, or the call of one
  of these functions with its arguments.
\<close>

datatype Action =
    Printf string
  | BenchmarkSearch
  | BenchmarkMoveGeneration int
  | BenchmarkMateSearch int int
  | Cluster_Start
  | Call_ComputeAllPossibleQuietMoves
  | Consultation_Start
  | CreateBook string
  | ComputeStatsOfGameDatabase "string option"
  | GenerateTeacherGames
  | GenerateTeacherPositions
  | GenerateTeacherPvs
  | LearnEvaluationParameters bool bool
  | Progress_LearnParameters
  | MoveProbability_Learn
  | Call_ComputePlayerRatings

text \<open>
  \<^verbatim>\<open>std::atoi\<close> is \<^verbatim>\<open>strtol\<close> in base 10 with its result converted to \<^verbatim>\<open>int\<close>.  White
  space is skipped, an optional sign is read, then the decimal digits up to the first
  other character.  A number outside the range of \<^verbatim>\<open>long\<close> (64 bits) is replaced by the
  nearest bound of that range, and the conversion to \<^verbatim>\<open>int\<close> keeps the low 32 bits.
\<close>

definition is_space :: "char \<Rightarrow> bool" where
  "is_space c \<longleftrightarrow> c \<in> {CHR '' '', CHR 0x09, CHR 0x0A, CHR 0x0B, CHR 0x0C, CHR 0x0D}"

definition is_digit :: "char \<Rightarrow> bool" where
  "is_digit c \<longleftrightarrow> 48 \<le> (of_char c :: nat) \<and> (of_char c :: nat) \<le> 57"

fun digits_value :: "int \<Rightarrow> string \<Rightarrow> int" where
  "digits_value acc [] = acc"
| "digits_value acc (c # cs) =
     (if is_digit c then digits_value (10 * acc + (of_char c - 48)) cs else acc)"

definition decimal_value :: "string \<Rightarrow> int" where
  "decimal_value s =
     (case dropWhile is_space s of
        [] \<Rightarrow> 0
      | c # cs \<Rightarrow>
          if c = CHR ''-'' then - digits_value 0 cs
          else if c = CHR ''+'' then digits_value 0 cs
          else digits_value 0 (c # cs))"

definition strtol :: "string \<Rightarrow> int" where
  "strtol s = max (- (2 ^ 63)) (min (2 ^ 63 - 1) (decimal_value s))"

definition atoi :: "string \<Rightarrow> int" where
  "atoi s = int32 (strtol s)"

text \<open>
  Lines 59-122.  \<open>argv\<close> is the argument vector and \<^verbatim>\<open>argc\<close> its length, as the C
  runtime passes them.
\<close>

definition ExecuteCommand :: "string list \<Rightarrow> Action list" where
  "ExecuteCommand argv =
     (let argc = int (length argv) in
      if argc < 2 then [Printf (''CLI: No command.'' @ [CHR 0x0A])]
      else
        let command = argv ! 1 in
        if command = ''--bench'' then [BenchmarkSearch]
        else if command = ''--bench-movegen'' then
          [BenchmarkMoveGeneration (if argc \<ge> 3 then atoi (argv ! 2) else 1)]
        else if command = ''--bench-mate1'' then
          [BenchmarkMateSearch (if argc \<ge> 3 then atoi (argv ! 2) else 1) 1]
        else if command = ''--bench-mate3'' then
          [BenchmarkMateSearch (if argc \<ge> 3 then atoi (argv ! 2) else 1) 3]
        else if command = ''--cluster'' then [Cluster_Start]
        else if command = ''--compute-all-quiets'' then [Call_ComputeAllPossibleQuietMoves]
        else if command = ''--consultation'' then [Consultation_Start]
        else if command = ''--create-book'' then
          [CreateBook (if argc \<ge> 3 then argv ! 2 else ''books'')]
        else if command = ''--db-stats'' then
          [ComputeStatsOfGameDatabase (if argc \<ge> 3 then Some (argv ! 2) else None)]
        else if command = ''--generate-games'' then [GenerateTeacherGames]
        else if command = ''--generate-positions'' then [GenerateTeacherPositions]
        else if command = ''--generate-pvs'' then [GenerateTeacherPvs]
        else if command = ''--learn'' then [LearnEvaluationParameters False False]
        else if command = ''--learn-with-rootstrap'' then [LearnEvaluationParameters True False]
        else if command = ''--learn-with-regression'' then [LearnEvaluationParameters True True]
        else if command = ''--learn-progress'' then [Progress_LearnParameters]
        else if command = ''--learn-probability'' then [MoveProbability_Learn]
        else if command = ''--compute-ratings'' then [Call_ComputePlayerRatings]
        else [Printf (''CLI: No such command. '' @ command @ [CHR 0x0A])])"

text \<open>The command names that the dispatcher compares with (lines 70-117).\<close>

definition known_commands :: "string list" where
  "known_commands =
     [''--bench'', ''--bench-movegen'', ''--bench-mate1'', ''--bench-mate3'', ''--cluster'',
      ''--compute-all-quiets'', ''--consultation'', ''--create-book'', ''--db-stats'',
      ''--generate-games'', ''--generate-positions'', ''--generate-pvs'', ''--learn'',
      ''--learn-with-rootstrap'', ''--learn-with-regression'', ''--learn-progress'',
      ''--learn-probability'', ''--compute-ratings'']"

text \<open>An action that is the call of a function, as opposed to a text written.\<close>

fun is_call :: "Action \<Rightarrow> bool" where
  "is_call (Printf s) = False"
| "is_call a = True"

text \<open>Line 209: the assertion at the entry of \<^verbatim>\<open>BenchmarkMateSearch\<close>.\<close>

definition BenchmarkMateSearch_assertion :: "int \<Rightarrow> int \<Rightarrow> bool" where
  "BenchmarkMateSearch_assertion num_calls ply \<longleftrightarrow> ply = 1 \<or> ply = 3"

section \<open>ComputePlayerRatings\<close>

text \<open>
  A \<^verbatim>\<open>Game\<close> of the game database (gamedb.h is missing): the fields that the rating
  loops read are its result and the names of its two players, indexed by color.
\<close>

datatype GameResult = kBlackWin | kWhiteWin | kDraw

record Game =
  result :: GameResult
  players :: "Color \<Rightarrow> string"

text \<open>
  The ratings are \<^verbatim>\<open>int64_t\<close> values and the locals of the loop are \<^verbatim>\<open>int\<close>.  The model
  computes on mathematical integers and writes every conversion and every store out with
  \<open>int32\<close> and \<open>int64\<close>: the result is wrapped into the range of the 32-bit or 64-bit
  type.
\<close>

text \<open>The division of C++ on integers rounds towards zero.\<close>

definition trunc_div :: "int \<Rightarrow> int \<Rightarrow> int" where
  "trunc_div a b = sgn a * sgn b * (\<bar>a\<bar> div \<bar>b\<bar>)"

text \<open>
  A \<^verbatim>\<open>std::unordered_map<std::string, int64_t>\<close>.  \<^verbatim>\<open>operator[]\<close> reads 0 at a key that
  is absent, and \<^verbatim>\<open>m[k] += d\<close> stores the sum at the key.
\<close>

type_synonym table = "string \<rightharpoonup> int"

definition at :: "table \<Rightarrow> string \<Rightarrow> int" where
  "at m k = (case m k of None \<Rightarrow> 0 | Some v \<Rightarrow> v)"

definition add_at :: "table \<Rightarrow> string \<Rightarrow> int \<Rightarrow> table" where
  "add_at m k d = m(k \<mapsto> int64 (at m k + d))"

record RatingState =
  ratings :: table
  sum_ratings :: table
  num_played :: table

definition empty_state :: RatingState where
  "empty_state = \<lparr>ratings = Map.empty, sum_ratings = Map.empty, num_played = Map.empty\<rparr>"

text \<open>Lines 445-450: one turn of the loop that sets every rating to 1500.\<close>

definition init_step :: "Game \<Rightarrow> RatingState \<Rightarrow> RatingState" where
  "init_step game s =
     s\<lparr>ratings := (ratings s)(players game kBlack \<mapsto> 1500, players game kWhite \<mapsto> 1500),
       num_played := add_at (add_at (num_played s) (players game kBlack) 1)
                       (players game kWhite) 1\<rparr>"

text \<open>Line 456.\<close>

definition winner_of :: "Game \<Rightarrow> Color" where
  "winner_of game = (if result game = kBlackWin then kBlack else kWhite)"

text \<open>Lines 459-460, on the two \<^verbatim>\<open>int\<close> locals.\<close>

definition rating_delta :: "int \<Rightarrow> int \<Rightarrow> int" where
  "rating_delta winner_rating loser_rating =
     (let delta = int32 (16 + trunc_div (int32 (loser_rating - winner_rating)) 25)
      in max 1 (min delta 31))"

text \<open>Lines 456-460: the delta of a game in a state.\<close>

definition game_delta :: "Game \<Rightarrow> RatingState \<Rightarrow> int" where
  "game_delta game s =
     (let winner = winner_of game;
          winner_rating = int32 (at (ratings s) (players game winner));
          loser_rating = int32 (at (ratings s) (players game (opp winner)))
      in rating_delta winner_rating loser_rating)"

text \<open>Lines 455-465: one turn of the update loop.\<close>

definition update_step :: "Game \<Rightarrow> RatingState \<Rightarrow> RatingState" where
  "update_step game s =
     (let winner = winner_of game;
          delta = game_delta game s;
          r1 = add_at (ratings s) (players game winner) delta;
          r2 = add_at r1 (players game (opp winner)) (- delta);
          s1 = add_at (sum_ratings s) (players game winner) (at r2 (players game winner));
          s2 = add_at s1 (players game (opp winner)) (at r2 (players game (opp winner)))
      in s\<lparr>ratings := r2, sum_ratings := s2\<rparr>)"

text \<open>
  The state of \<^verbatim>\<open>ComputePlayerRatings\<close> when the update loop has processed the first \<open>i\<close>
  games of the vector \<^verbatim>\<open>games\<close>: the initialisation loop has run over all the games, the
  update loop over the first \<open>i\<close>.
\<close>

definition rating_loop_state :: "Game list \<Rightarrow> nat \<Rightarrow> RatingState" where
  "rating_loop_state games i = fold update_step (take i games) (fold init_step games empty_state)"

text \<open>
  Every rating is within \<open>31 * n\<close> of the range from -1500 to 1500: the invariant of the
  update loop after \<open>n\<close> games.
\<close>

definition bounded :: "nat \<Rightarrow> table \<Rightarrow> bool" where
  "bounded n m \<longleftrightarrow> (\<forall>k. \<bar>at m k\<bar> \<le> 1500 + 31 * int n)"

text \<open>Two sample games: A beats B with Black, then A beats C with White.\<close>

definition sample_game1 :: Game where
  "sample_game1 = \<lparr>result = kBlackWin, players = (\<lambda>c. if c = kBlack then ''A'' else ''B'')\<rparr>"

definition sample_game2 :: Game where
  "sample_game2 = \<lparr>result = kWhiteWin, players = (\<lambda>c. if c = kBlack then ''C'' else ''A'')\<rparr>"

section \<open>Mate search\<close>

text \<open>
  \<^verbatim>\<open>cli.cc\<close> calls \<^verbatim>\<open>IsMateInOnePly\<close> and \<^verbatim>\<open>IsMateInThreePlies\<close>; their code (mate1ply.h,
  mate3.h), the move generator and the position are not part of the sources at hand.  The
  position type and the rules of the game are parameters of the model: the checking moves
  of the side to move, its legal moves, its legal evasions, and the position after a move.
\<close>

record Mate3Result =
  mate_move :: Move

record 'pos Rules =
  checking_moves :: "'pos \<Rightarrow> Move list"
  legal_moves :: "'pos \<Rightarrow> Move list"
  legal_evasions :: "'pos \<Rightarrow> Move list"
  do_move :: "'pos \<Rightarrow> Move \<Rightarrow> 'pos"

text \<open>
  Modelled from the spec: \<^verbatim>\<open>IsMateInOnePly\<close> (\<open>ProveMateInOne\<close>, section 4.4; mate1ply.h
  is missing).  Only the moves that give check are candidates; the first one after which
  the opponent has no legal evasion is returned, and the empty result when there is none.
\<close>

primrec mate1_loop :: "'pos Rules \<Rightarrow> 'pos \<Rightarrow> Move list \<Rightarrow> Move option" where
  "mate1_loop R pos [] = None"
| "mate1_loop R pos (m # ms) =
     (if legal_evasions R (do_move R pos m) = [] then Some m else mate1_loop R pos ms)"

definition IsMateInOnePly :: "'pos Rules \<Rightarrow> 'pos \<Rightarrow> Move option" where
  "IsMateInOnePly R pos = mate1_loop R pos (checking_moves R pos)"

text \<open>
  Modelled from the spec: \<^verbatim>\<open>IsMateInThreePlies\<close> (\<open>ProveMateInThree\<close>, section 4.4; mate3.h
  is missing).  The outer loop tries the checking moves in turn; the inner loop runs over
  every legal reply of the opponent and gives a candidate up at the first reply that has
  no mate in one; the first candidate that survives the inner loop is returned.
\<close>

primrec replies_loop :: "'pos Rules \<Rightarrow> 'pos \<Rightarrow> Move list \<Rightarrow> bool" where
  "replies_loop R pos [] = True"
| "replies_loop R pos (r # rs) =
     (if IsMateInOnePly R (do_move R pos r) = None then False else replies_loop R pos rs)"

primrec mate3_loop :: "'pos Rules \<Rightarrow> 'pos \<Rightarrow> Move list \<Rightarrow> Mate3Result option" where
  "mate3_loop R pos [] = None"
| "mate3_loop R pos (m # ms) =
     (if replies_loop R (do_move R pos m) (legal_moves R (do_move R pos m))
      then Some \<lparr>mate_move = m\<rparr> else mate3_loop R pos ms)"

definition IsMateInThreePlies :: "'pos Rules \<Rightarrow> 'pos \<Rightarrow> Mate3Result option" where
  "IsMateInThreePlies R pos = mate3_loop R pos (checking_moves R pos)"

text \<open>
  A small game to instantiate the statements on: the positions are numbered and every
  move leads from position \<open>n\<close> to position \<open>n + 1\<close>.  In position 0 a gold drop gives
  check, in position 1 the king has one move, in position 2 a second gold drop gives
  check and in position 3 there is no move left.
\<close>

definition toy_rules :: "nat Rules" where
  "toy_rules =
     \<lparr>checking_moves =
        (\<lambda>n. if n = 0 then [DropMove (Piece kBlack kGold) (Square 5 2)]
             else if n = 2 then [DropMove (Piece kBlack kGold) (Square 4 2)]
             else []),
      legal_moves =
        (\<lambda>n. if n = 1 then [BoardMove (Piece kWhite kKing) (Square 5 1) (Square 4 1) False]
             else []),
      legal_evasions =
        (\<lambda>n. if n = 1 then [BoardMove (Piece kWhite kKing) (Square 5 1) (Square 4 1) False]
             else []),
      do_move = (\<lambda>n m. Suc n)\<rparr>"

section \<open>Properties of the quiet-move catalogue\<close>

subsection \<open>Squares, pieces and traversals\<close>

lemma set_all_squares:
  "sq \<in> set all_squares \<longleftrightarrow>
     1 \<le> file_of sq \<and> file_of sq \<le> 9 \<and> 1 \<le> rank_of sq \<and> rank_of sq \<le> 9"
  by (cases sq) (force simp: all_squares_def)

lemma distinct_all_squares: "distinct all_squares"
  unfolding all_squares_def
  by (rule distinct_concat) (auto simp: distinct_map inj_on_def)

lemma length_all_squares: "length all_squares = 81"
  by (simp add: all_squares_def length_concat comp_def sum_list_triv)

lemma distinct_all_pieces: "distinct all_pieces"
  unfolding all_pieces_def all_piece_types_def by simp

lemma set_all_pieces: "p \<in> set all_pieces"
  by (cases p; cases "color p"; cases "type p") (auto simp: all_pieces_def all_piece_types_def)

lemma set_ForEach: "sq \<in> set (ForEach bb) \<longleftrightarrow> sq \<in> set all_squares \<and> bb sq"
  by (auto simp: ForEach_def)

lemma distinct_ForEach: "distinct (ForEach bb)"
  by (simp add: ForEach_def distinct_all_squares)

subsection \<open>Membership in the three passes\<close>

lemma in_non_promotions:
  "m \<in> set (non_promotions att) \<longleftrightarrow>
     (\<exists>p f t. m = BoardMove p f t False \<and> f \<in> set all_squares \<and> quiet_from_bb p f
        \<and> t \<in> set all_squares \<and> att p f t \<and> quiet_target p t)"
  by (force simp: non_promotions_def set_ForEach bb_and_def set_all_pieces)

lemma in_silver_promotions:
  "m \<in> set (silver_promotions att) \<longleftrightarrow>
     (\<exists>c f t. m = BoardMove (Piece c kSilver) f t True \<and> f \<in> set all_squares
        \<and> t \<in> set all_squares \<and> att (Piece c kSilver) f t
        \<and> (is_promotion_zone_of t c \<or> is_promotion_zone_of f c))"
proof -
  have c: "set [kBlack, kWhite] = UNIV"
    using Color.exhaust by auto
  show ?thesis
    unfolding silver_promotions_def set_concat set_map c
    by (force simp: set_ForEach)
qed

lemma in_drops:
  "m \<in> set (drops drp) \<longleftrightarrow>
     (\<exists>p t. m = DropMove p t \<and> drp p \<and> t \<in> set all_squares \<and> drop_target p t)"
  by (force simp: drops_def set_ForEach set_all_pieces)

lemma in_quiet_moves:
  "m \<in> set (quiet_moves att drp) \<longleftrightarrow>
     m \<in> set (non_promotions att) \<or> m \<in> set (silver_promotions att) \<or> m \<in> set (drops drp)"
  by (simp add: quiet_moves_def)

lemma board_move_quiet_iff:
  "BoardMove p f t False \<in> set (quiet_moves att drp) \<longleftrightarrow>
     f \<in> set all_squares \<and> quiet_from_bb p f \<and> t \<in> set all_squares \<and> att p f t
       \<and> quiet_target p t"
  by (auto simp: in_quiet_moves in_non_promotions in_silver_promotions in_drops)

lemma promotion_quiet_iff:
  "BoardMove p f t True \<in> set (quiet_moves att drp) \<longleftrightarrow>
     type p = kSilver \<and> f \<in> set all_squares \<and> t \<in> set all_squares \<and> att p f t
       \<and> (is_promotion_zone_of t (color p) \<or> is_promotion_zone_of f (color p))"
  by (cases p) (auto simp: in_quiet_moves in_non_promotions in_silver_promotions in_drops)

lemma drop_quiet_iff:
  "DropMove p t \<in> set (quiet_moves att drp) \<longleftrightarrow>
     drp p \<and> t \<in> set all_squares \<and> drop_target p t"
  by (auto simp: in_quiet_moves in_non_promotions in_silver_promotions in_drops)

lemma quiet_moves_on_board: "m \<in> set (quiet_moves att drp) \<Longrightarrow> on_board m"
  by (cases m) (auto simp: in_quiet_moves in_non_promotions in_silver_promotions in_drops)

subsection \<open>The restrictions on the moves without promotion\<close>

text \<open>
  Claim C1.  A board move of the catalogue that does not promote is never a move that is
  always worse than the promotion: the destination of a pawn is outside the promotion zone
  of the mover, the destination of a lance is neither on the farthest rank nor on the
  second-furthest rank of the mover, and both the destination and the origin of a bishop
  or a rook are outside the promotion zone of the mover.
\<close>

theorem quiet_non_promotion_not_dominated:
  assumes "BoardMove p f t False \<in> set (quiet_moves att drp)"
  shows "(type p = kPawn \<longrightarrow> \<not> is_promotion_zone_of t (color p))
       \<and> (type p = kLance \<longrightarrow> relative_rank (color p) t \<noteq> 1 \<and> relative_rank (color p) t \<noteq> 2)
       \<and> (type p = kBishop \<or> type p = kRook \<longrightarrow>
            \<not> is_promotion_zone_of t (color p) \<and> \<not> is_promotion_zone_of f (color p))"
  using assms
  by (auto simp: board_move_quiet_iff quiet_from_bb_def quiet_target_def bb_and_def rank_bb_def
        is_promotion_zone_of_def)

theorem quiet_non_promotion_not_dominated_witness:
  "BoardMove (Piece kBlack kPawn) (Square 5 5) (Square 5 4) False
     \<in> set (quiet_moves forward_step hand_piece)
   \<and> \<not> is_promotion_zone_of (Square 5 4) kBlack
   \<and> BoardMove (Piece kWhite kLance) (Square 1 6) (Square 1 7) False
     \<in> set (quiet_moves forward_step hand_piece)
   \<and> relative_rank kWhite (Square 1 7) \<noteq> 1 \<and> relative_rank kWhite (Square 1 7) \<noteq> 2
   \<and> BoardMove (Piece kBlack kRook) (Square 2 8) (Square 2 7) False
     \<in> set (quiet_moves forward_step hand_piece)
   \<and> \<not> is_promotion_zone_of (Square 2 7) kBlack \<and> \<not> is_promotion_zone_of (Square 2 8) kBlack"
proof -
  have a: "BoardMove (Piece kBlack kPawn) (Square 5 5) (Square 5 4) False
      \<in> set (quiet_moves forward_step hand_piece)"
    by (simp add: board_move_quiet_iff set_all_squares forward_step_def quiet_from_bb_def
        quiet_target_def bb_and_def rank_bb_def board_bb_def)
  have b: "BoardMove (Piece kWhite kLance) (Square 1 6) (Square 1 7) False
      \<in> set (quiet_moves forward_step hand_piece)"
    by (simp add: board_move_quiet_iff set_all_squares forward_step_def quiet_from_bb_def
        quiet_target_def bb_and_def rank_bb_def board_bb_def)
  have c: "BoardMove (Piece kBlack kRook) (Square 2 8) (Square 2 7) False
      \<in> set (quiet_moves forward_step hand_piece)"
    by (simp add: board_move_quiet_iff set_all_squares forward_step_def quiet_from_bb_def
        quiet_target_def bb_and_def rank_bb_def board_bb_def)
  from quiet_non_promotion_not_dominated [OF a] quiet_non_promotion_not_dominated [OF b]
    quiet_non_promotion_not_dominated [OF c] a b c
  show ?thesis by simp
qed

subsection \<open>The promotions\<close>

text \<open>
  Claim C2.  A move of the catalogue whose promote flag is set is a board move of a silver,
  and its origin or its destination lies in the promotion zone of the mover; no promotion
  of another piece type is in the catalogue.
\<close>

theorem quiet_promotion_is_silver:
  assumes "m \<in> set (quiet_moves att drp)" and "is_promotion m"
  shows "\<exists>c f t. m = BoardMove (Piece c kSilver) f t True
           \<and> (is_promotion_zone_of f c \<or> is_promotion_zone_of t c)"
proof (cases m)
  case (BoardMove p f t pr)
  with assms have "BoardMove p f t True \<in> set (quiet_moves att drp)" by simp
  then have "type p = kSilver"
    and "is_promotion_zone_of t (color p) \<or> is_promotion_zone_of f (color p)"
    by (simp_all add: promotion_quiet_iff)
  with BoardMove assms(2) show ?thesis by (cases p) auto
next
  case (DropMove p t)
  with assms(2) show ?thesis by simp
qed

theorem quiet_promotion_is_silver_witness:
  "BoardMove (Piece kBlack kSilver) (Square 5 4) (Square 5 3) True
     \<in> set (quiet_moves forward_step hand_piece)
   \<and> is_promotion (BoardMove (Piece kBlack kSilver) (Square 5 4) (Square 5 3) True)
   \<and> (\<exists>c f t. BoardMove (Piece kBlack kSilver) (Square 5 4) (Square 5 3) True
               = BoardMove (Piece c kSilver) f t True
           \<and> (is_promotion_zone_of f c \<or> is_promotion_zone_of t c))"
proof -
  have a: "BoardMove (Piece kBlack kSilver) (Square 5 4) (Square 5 3) True
      \<in> set (quiet_moves forward_step hand_piece)"
    by (simp add: promotion_quiet_iff set_all_squares forward_step_def is_promotion_zone_of_def)
  have b: "is_promotion (BoardMove (Piece kBlack kSilver) (Square 5 4) (Square 5 3) True)"
    by simp
  from quiet_promotion_is_silver [OF a b] a b show ?thesis by blast
qed

subsection \<open>The drops\<close>

text \<open>
  Claim C3.  A drop of the catalogue is the drop of a piece marked droppable; a pawn or a
  lance is never dropped on the farthest rank of the mover, a knight never on its two
  farthest ranks; a droppable piece of another type is dropped on every one of the 81
  squares.
\<close>

theorem quiet_drop_restricted:
  "(DropMove p t \<in> set (quiet_moves att drp) \<longrightarrow>
       drp p \<and> t \<in> set all_squares
     \<and> (type p = kPawn \<or> type p = kLance \<longrightarrow> relative_rank (color p) t \<noteq> 1)
     \<and> (type p = kKnight \<longrightarrow> relative_rank (color p) t \<noteq> 1 \<and> relative_rank (color p) t \<noteq> 2))
   \<and> (drp p \<and> type p \<noteq> kPawn \<and> type p \<noteq> kLance \<and> type p \<noteq> kKnight \<and> t \<in> set all_squares \<longrightarrow>
       DropMove p t \<in> set (quiet_moves att drp))
   \<and> length all_squares = 81 \<and> distinct all_squares"
proof -
  have "drop_target p t" if "type p \<noteq> kPawn" "type p \<noteq> kLance" "type p \<noteq> kKnight"
     "t \<in> set all_squares"
    using that by (cases "type p") (auto simp: drop_target_def board_bb_def)
  then show ?thesis
    by (auto simp: drop_quiet_iff drop_target_def bb_and_def rank_bb_def length_all_squares
          distinct_all_squares)
qed

theorem quiet_drop_restricted_witness:
  "DropMove (Piece kWhite kKnight) (Square 3 5) \<in> set (quiet_moves forward_step hand_piece)
   \<and> hand_piece (Piece kWhite kKnight)
   \<and> relative_rank kWhite (Square 3 5) \<noteq> 1 \<and> relative_rank kWhite (Square 3 5) \<noteq> 2
   \<and> hand_piece (Piece kBlack kGold) \<and> Square 5 1 \<in> set all_squares
   \<and> DropMove (Piece kBlack kGold) (Square 5 1) \<in> set (quiet_moves forward_step hand_piece)"
proof -
  have a: "DropMove (Piece kWhite kKnight) (Square 3 5)
      \<in> set (quiet_moves forward_step hand_piece)"
    by (simp add: drop_quiet_iff set_all_squares hand_piece_def drop_target_def bb_and_def
        rank_bb_def board_bb_def)
  have b: "hand_piece (Piece kBlack kGold)" "Square 5 1 \<in> set all_squares"
    by (simp_all add: hand_piece_def set_all_squares)
  from quiet_drop_restricted [of "Piece kWhite kKnight" "Square 3 5" forward_step hand_piece]
    quiet_drop_restricted [of "Piece kBlack kGold" "Square 5 1" forward_step hand_piece] a b
  show ?thesis by simp
qed

subsection \<open>The catalogue holds no move twice\<close>

lemma distinct_concat_map:
  assumes "distinct xs"
    and "\<And>x. x \<in> set xs \<Longrightarrow> distinct (g x)"
    and "\<And>x y. x \<in> set xs \<Longrightarrow> y \<in> set xs \<Longrightarrow> x \<noteq> y \<Longrightarrow> set (g x) \<inter> set (g y) = {}"
  shows "distinct (concat (map g xs))"
  using assms
proof (induction xs)
  case Nil
  then show ?case by simp
next
  case (Cons a xs)
  have "set (g a) \<inter> set (g y) = {}" if "y \<in> set xs" for y
    using Cons.prems(1) Cons.prems(3) [of a y] that by auto
  moreover have "distinct (concat (map g xs))"
    using Cons by simp
  ultimately show ?case using Cons.prems(2) by auto
qed

lemma distinct_non_promotions: "distinct (non_promotions att)"
  unfolding non_promotions_def
proof (rule distinct_concat_map [OF distinct_all_pieces], goal_cases)
  case (1 p)
  show ?case
    by (rule distinct_concat_map [OF distinct_ForEach])
       (auto simp: distinct_map distinct_ForEach inj_on_def)
next
  case (2 p q)
  then show ?case by auto
qed

lemma distinct_silver_promotions: "distinct (silver_promotions att)"
  unfolding silver_promotions_def
proof (rule distinct_concat_map, goal_cases)
  case 1
  show ?case by simp
next
  case (2 c)
  show ?case
    by (rule distinct_concat_map [OF distinct_all_squares])
       (auto simp: distinct_map distinct_ForEach inj_on_def)
next
  case (3 c d)
  then show ?case by auto
qed

lemma distinct_drops: "distinct (drops drp)"
  unfolding drops_def
  by (rule distinct_concat_map)
     (auto simp: distinct_all_pieces distinct_map distinct_ForEach inj_on_def)

lemma distinct_quiet_moves: "distinct (quiet_moves att drp)"
  unfolding quiet_moves_def
  by (auto simp: distinct_non_promotions distinct_silver_promotions distinct_drops
        in_non_promotions in_silver_promotions in_drops)

subsection \<open>The sample encoding is injective on the board\<close>

lemma digit_inj:
  fixes a b :: nat
  assumes "a < k" "a' < k" "a + k * b = a' + k * b'"
  shows "a = a' \<and> b = b'"
proof -
  have "(a + k * b) mod k = a" "(a + k * b) div k = b" using assms(1) by simp_all
  moreover have "(a' + k * b') mod k = a'" "(a' + k * b') div k = b'" using assms(2) by simp_all
  ultimately show ?thesis using assms(3) by simp
qed

lemma sq_index_less: "sq \<in> set all_squares \<Longrightarrow> sq_index sq < 81"
  by (auto simp: set_all_squares sq_index_def)

lemma sq_index_inj:
  assumes "a \<in> set all_squares" "b \<in> set all_squares" "sq_index a = sq_index b"
  shows "a = b"
proof -
  obtain fa ra where a: "a = Square fa ra" by (cases a)
  obtain fb rb where b: "b = Square fb rb" by (cases b)
  from assms(1,2) have r: "ra - 1 < 9" "rb - 1 < 9" and p: "1 \<le> ra" "1 \<le> rb" "1 \<le> fa" "1 \<le> fb"
    unfolding a b set_all_squares by auto
  from assms(3) have "(ra - 1) + 9 * (fa - 1) = (rb - 1) + 9 * (fb - 1)"
    unfolding a b sq_index_def by simp
  from digit_inj [OF r this] p show ?thesis unfolding a b by auto
qed

lemma type_index_less: "type_index t < 16"
  by (cases t) simp_all

lemma type_index_inj: "type_index a = type_index b \<Longrightarrow> a = b"
  by (cases a; cases b) simp_all

lemma piece_index_less: "piece_index p < 32"
  using type_index_less [of "type p"] by (cases "color p") (simp_all add: piece_index_def)

lemma piece_index_inj:
  assumes "piece_index a = piece_index b" shows "a = b"
proof -
  have "color a = color b \<and> type_index (type a) = type_index (type b)"
    using assms type_index_less [of "type a"] type_index_less [of "type b"]
    by (cases "color a"; cases "color b") (simp_all add: piece_index_def)
  then show ?thesis by (simp add: Piece.expand type_index_inj)
qed

lemma fields_bounds:
  "on_board m \<Longrightarrow> (case move_fields m of (a, b, c, d, e) \<Rightarrow> a < 128 \<and> b < 128 \<and> c < 2 \<and> d < 2)"
  by (cases m) (auto dest: sq_index_less)

lemma fields_inj:
  assumes "on_board m" "on_board n" "move_fields m = move_fields n"
  shows "m = n"
  using assms by (cases m; cases n) (auto dest: sq_index_inj piece_index_inj split: if_splits)

lemma move_code_less: "on_board m \<Longrightarrow> move_code m < 2 ^ 32"
proof (cases m)
  case (BoardMove p f t pr)
  assume "on_board m"
  with BoardMove have "sq_index f < 81" "sq_index t < 81" by (simp_all add: sq_index_less)
  with piece_index_less [of p] show ?thesis by (simp add: BoardMove move_code_def)
next
  case (DropMove p t)
  assume "on_board m"
  with DropMove have "sq_index t < 81" by (simp_all add: sq_index_less)
  with piece_index_less [of p] show ?thesis by (simp add: DropMove move_code_def)
qed

lemma move_code_inj:
  assumes "on_board m" "on_board n" "move_code m = move_code n"
  shows "m = n"
proof -
  obtain a b c d e where m: "move_fields m = (a, b, c, d, e)" by (cases "move_fields m")
  obtain a' b' c' d' e' where n: "move_fields n = (a', b', c', d', e')" by (cases "move_fields n")
  from fields_bounds [OF assms(1)] m have bm: "a < 128" "b < 128" "c < 2" "d < 2" by simp_all
  from fields_bounds [OF assms(2)] n have bn: "a' < 128" "b' < 128" "c' < 2" "d' < 2" by simp_all
  from assms(3) have e0: "a + 128 * (b + 128 * (c + 2 * (d + 2 * e)))
      = a' + 128 * (b' + 128 * (c' + 2 * (d' + 2 * e')))"
    by (simp add: move_code_def m n)
  from digit_inj [OF bm(1) bn(1) e0]
  have a: "a = a'" and e1: "b + 128 * (c + 2 * (d + 2 * e)) = b' + 128 * (c' + 2 * (d' + 2 * e'))"
    by simp_all
  from digit_inj [OF bm(2) bn(2) e1]
  have b: "b = b'" and e2: "c + 2 * (d + 2 * e) = c' + 2 * (d' + 2 * e')" by simp_all
  from digit_inj [OF bm(3) bn(3) e2]
  have c: "c = c'" and e3: "d + 2 * e = d' + 2 * e'" by simp_all
  from digit_inj [OF bm(4) bn(4) e3] have "d = d'" "e = e'" by simp_all
  with a b c m n have "move_fields m = move_fields n" by simp
  with assms(1,2) show ?thesis by (rule fields_inj)
qed

lemma packed_move_inj_on: "inj_on packed_move (set (quiet_moves att drp))"
proof (rule inj_onI)
  fix m n
  assume m: "m \<in> set (quiet_moves att drp)" and n: "n \<in> set (quiet_moves att drp)"
    and e: "packed_move m = packed_move n"
  have bm: "move_code m < 2 ^ 32" and bn: "move_code n < 2 ^ 32"
    using move_code_less [OF quiet_moves_on_board [OF m]]
      move_code_less [OF quiet_moves_on_board [OF n]] by simp_all
  from e have "unat (word_of_nat (move_code m) :: 32 word)
      = unat (word_of_nat (move_code n) :: 32 word)"
    by (simp add: packed_move_def)
  with bm bn have "move_code m = move_code n"
    by (simp add: unat_of_nat take_bit_nat_eq_self)
  with m n show "m = n"
    by (auto intro: move_code_inj quiet_moves_on_board)
qed

subsection \<open>The output is sorted and holds no value twice\<close>

text \<open>
  Claim C4.  The values that \<^verbatim>\<open>ComputeAllPossibleQuietMoves\<close> prints are in ascending
  order of the integer encoding of the moves, and no value occurs twice.  The function
  sorts and does not remove anything: no value occurs twice because the three passes
  never push the same move twice, and the encoding tells the moves of the catalogue apart
  (it defines a strict total order on the moves).  The lines printed are these values, in
  this order, in hexadecimal.
\<close>

theorem output_sorted_distinct:
  assumes "inj_on enc (set (quiet_moves att drp))"
  shows "sorted (sorted_values att drp enc) \<and> distinct (sorted_values att drp enc)
       \<and> ComputeAllPossibleQuietMoves att drp enc
           = map (\<lambda>v. hex08 v @ [CHR 0x0A]) (sorted_values att drp enc)"
  using assms
  by (simp add: sorted_values_def distinct_map distinct_quiet_moves
        ComputeAllPossibleQuietMoves_def)

theorem output_sorted_distinct_witness:
  "inj_on packed_move (set (quiet_moves forward_step hand_piece))
   \<and> sorted (sorted_values forward_step hand_piece packed_move)
   \<and> distinct (sorted_values forward_step hand_piece packed_move)"
  using output_sorted_distinct [OF packed_move_inj_on, of forward_step hand_piece]
    packed_move_inj_on [of forward_step hand_piece]
  by simp

subsection \<open>The output depends on the tables only\<close>

lemma quiet_moves_cong:
  assumes "\<And>p f t. f \<in> set all_squares \<Longrightarrow> t \<in> set all_squares \<Longrightarrow> att1 p f t = att2 p f t"
    and "\<And>p. drp1 p = drp2 p"
  shows "quiet_moves att1 drp1 = quiet_moves att2 drp2"
proof -
  have fe: "ForEach (bb_and (att1 p f) b) = ForEach (bb_and (att2 p f) b)"
    if "f \<in> set all_squares" for p f b
    unfolding ForEach_def bb_and_def using assms(1) [OF that] by (auto intro: filter_cong)
  have fe': "ForEach (att1 p f) = ForEach (att2 p f)" if "f \<in> set all_squares" for p f
    unfolding ForEach_def using assms(1) [OF that] by (auto intro: filter_cong)
  have "non_promotions att1 = non_promotions att2"
    unfolding non_promotions_def
    by (intro arg_cong [where f = concat] map_cong refl) (simp add: fe set_ForEach)
  moreover have "silver_promotions att1 = silver_promotions att2"
    unfolding silver_promotions_def
    by (intro arg_cong [where f = concat] map_cong refl) (simp add: fe')
  moreover have "drp1 = drp2" using assms(2) by auto
  ultimately show ?thesis by (simp add: quiet_moves_def)
qed

text \<open>
  Claim C5.  \<^verbatim>\<open>ComputeAllPossibleQuietMoves\<close> is deterministic.  It takes no argument and
  its output is a function of the tables that it reads: two runs that read tables with the
  same content on the 81 squares of the board print the same sequence of lines, element
  for element, whatever the tables hold elsewhere.
\<close>

theorem output_deterministic:
  assumes "\<forall>p f t. f \<in> set all_squares \<and> t \<in> set all_squares \<longrightarrow> att1 p f t = att2 p f t"
    and "\<forall>p. drp1 p = drp2 p"
    and "\<forall>m. on_board m \<longrightarrow> enc1 m = enc2 m"
  shows "ComputeAllPossibleQuietMoves att1 drp1 enc1 = ComputeAllPossibleQuietMoves att2 drp2 enc2
       \<and> sorted_values att1 drp1 enc1 = sorted_values att2 drp2 enc2"
proof -
  have q: "quiet_moves att1 drp1 = quiet_moves att2 drp2"
    using assms(1,2) by (intro quiet_moves_cong) auto
  have e: "map enc1 (quiet_moves att2 drp2) = map enc2 (quiet_moves att2 drp2)"
    using assms(3) by (auto dest: quiet_moves_on_board)
  show ?thesis
    unfolding ComputeAllPossibleQuietMoves_def sorted_values_def q e by simp
qed

theorem output_deterministic_witness:
  "ComputeAllPossibleQuietMoves forward_step hand_piece packed_move
     = ComputeAllPossibleQuietMoves
         (\<lambda>p f t. forward_step p f t \<or> rank_of t = 0) hand_piece
         (\<lambda>m. if on_board m then packed_move m else 0)"
proof -
  have a: "\<forall>p f t. f \<in> set all_squares \<and> t \<in> set all_squares \<longrightarrow>
      forward_step p f t = (forward_step p f t \<or> rank_of t = 0)"
    by (simp add: set_all_squares)
  have b: "\<forall>p. hand_piece p = hand_piece p" by simp
  have c: "\<forall>m. on_board m \<longrightarrow> packed_move m = (if on_board m then packed_move m else 0)"
    by simp
  from output_deterministic [OF a b c] show ?thesis by simp
qed

section \<open>Properties of the rating loop\<close>

lemma int32_id: "- (2 ^ 31) \<le> x \<Longrightarrow> x < 2 ^ 31 \<Longrightarrow> int32 x = x"
  unfolding int32_def by (rule signed_take_bit_int_eq_self) simp_all

lemma int64_id: "- (2 ^ 63) \<le> x \<Longrightarrow> x < 2 ^ 63 \<Longrightarrow> int64 x = x"
  unfolding int64_def by (rule signed_take_bit_int_eq_self) simp_all

lemma rating_delta_range: "1 \<le> rating_delta a b \<and> rating_delta a b \<le> 31"
  by (simp add: rating_delta_def Let_def)

lemma game_delta_range: "1 \<le> game_delta g s \<and> game_delta g s \<le> 31"
  using rating_delta_range by (simp add: game_delta_def Let_def)

lemma trunc_div_25_abs: "25 * \<bar>trunc_div a 25\<bar> \<le> \<bar>a\<bar>"
proof -
  have "\<bar>a\<bar> = 25 * (\<bar>a\<bar> div 25) + \<bar>a\<bar> mod 25" by simp
  moreover have "0 \<le> \<bar>a\<bar> mod 25" by simp
  ultimately have "25 * (\<bar>a\<bar> div 25) \<le> \<bar>a\<bar>" by linarith
  moreover have "0 \<le> \<bar>a\<bar> div 25" by (simp add: pos_imp_zdiv_nonneg_iff)
  ultimately show ?thesis
    by (simp add: trunc_div_def abs_mult abs_sgn_eq)
qed

lemma bounded_empty: "bounded 0 Map.empty"
  by (simp add: bounded_def at_def)

lemma bounded_init: "bounded 0 (ratings s) \<Longrightarrow> bounded 0 (ratings (fold init_step games s))"
proof (induction games arbitrary: s)
  case Nil
  then show ?case by simp
next
  case (Cons g games)
  have "bounded 0 (ratings (init_step g s))"
    using Cons.prems by (simp add: init_step_def bounded_def at_def)
  then show ?case using Cons.IH by simp
qed

lemma ratings_update_step:
  "ratings (update_step g s) =
     add_at (add_at (ratings s) (players g (winner_of g)) (game_delta g s))
            (players g (opp (winner_of g))) (- game_delta g s)"
  by (simp add: update_step_def Let_def)

lemma nat_bound_int: "n < 2 ^ k \<Longrightarrow> int n < 2 ^ k"
  by (metis of_nat_less_iff of_nat_numeral of_nat_power)

lemma add_at_exact:
  assumes "\<bar>at m k\<bar> \<le> 1500 + 31 * int n" "n < 2 ^ 58" "\<bar>d\<bar> \<le> 31"
  shows "at (add_at m k d) k = at m k + d"
proof -
  have "int n < 2 ^ 58" using assms(2) by (rule nat_bound_int)
  then have "- (2 ^ 63) \<le> at m k + d" "at m k + d < 2 ^ 63"
    using assms(1,3) by simp_all
  then show ?thesis by (simp add: add_at_def at_def int64_id)
qed

lemma add_at_other: "j \<noteq> k \<Longrightarrow> at (add_at m k d) j = at m j"
  by (simp add: add_at_def at_def)

text \<open>
  While fewer than \<open>2 ^ 25\<close> games have been processed no conversion and no operation on
  the \<^verbatim>\<open>int\<close> locals leaves the range of \<^verbatim>\<open>int\<close>, and the delta is the clamped value of
  \<open>16 + (loser_rating - winner_rating) / 25\<close> on the mathematical integers.
\<close>

lemma game_delta_exact:
  fixes g :: Game and s :: RatingState
  assumes b: "bounded n (ratings s)" and n: "n < 2 ^ 25"
  shows "game_delta g s =
     max 1 (min (16 + trunc_div (at (ratings s) (players g (opp (winner_of g)))
                                 - at (ratings s) (players g (winner_of g))) 25) 31)"
proof -
  let ?w = "at (ratings s) (players g (winner_of g))"
  let ?l = "at (ratings s) (players g (opp (winner_of g)))"
  have n': "int n < 2 ^ 25" using n by (rule nat_bound_int)
  have bw: "\<bar>?w\<bar> < 2 ^ 30" and bl: "\<bar>?l\<bar> < 2 ^ 30"
    using b n' by (auto simp: bounded_def intro: le_less_trans)
  have w: "int32 ?w = ?w" and l: "int32 ?l = ?l"
    using bw bl by (auto intro!: int32_id)
  have d: "int32 (?l - ?w) = ?l - ?w"
    using bw bl by (auto intro!: int32_id)
  have "\<bar>trunc_div (?l - ?w) 25\<bar> < 2 ^ 31 - 16"
    using trunc_div_25_abs [of "?l - ?w"] bw bl by simp
  then have q: "int32 (16 + trunc_div (?l - ?w) 25) = 16 + trunc_div (?l - ?w) 25"
    by (auto intro!: int32_id)
  show ?thesis
    by (simp add: game_delta_def rating_delta_def Let_def w l d q)
qed

text \<open>
  While fewer than \<open>2 ^ 58\<close> games have been processed no store into the 64-bit ratings
  leaves the range of \<^verbatim>\<open>int64_t\<close>.
\<close>

lemma step_exact:
  fixes g :: Game and s :: RatingState
  assumes b: "bounded n (ratings s)" and n: "n < 2 ^ 58"
  defines "w \<equiv> players g (winner_of g)" and "l \<equiv> players g (opp (winner_of g))"
    and "d \<equiv> game_delta g s"
  shows "w \<noteq> l \<Longrightarrow> at (ratings (update_step g s)) w = at (ratings s) w + d"
    and "w \<noteq> l \<Longrightarrow> at (ratings (update_step g s)) l = at (ratings s) l - d"
    and "w = l \<Longrightarrow> at (ratings (update_step g s)) w = at (ratings s) w"
    and "k \<noteq> w \<Longrightarrow> k \<noteq> l \<Longrightarrow> at (ratings (update_step g s)) k = at (ratings s) k"
proof -
  have d: "\<bar>d\<bar> \<le> 31" "\<bar>- d\<bar> \<le> 31" using game_delta_range [of g s] by (simp_all add: d_def)
  have bw: "\<bar>at (ratings s) k\<bar> \<le> 1500 + 31 * int n" for k
    using b by (simp add: bounded_def)
  have r1: "at (add_at (ratings s) w d) w = at (ratings s) w + d"
    by (rule add_at_exact [OF bw n d(1)])
  have r: "ratings (update_step g s) = add_at (add_at (ratings s) w d) l (- d)"
    by (simp add: ratings_update_step w_def l_def d_def)
  show "at (ratings (update_step g s)) w = at (ratings s) w + d" if "w \<noteq> l"
    using that r1 by (simp add: r add_at_other)
  show "at (ratings (update_step g s)) l = at (ratings s) l - d" if "w \<noteq> l"
  proof -
    have "\<bar>at (add_at (ratings s) w d) l\<bar> \<le> 1500 + 31 * int n"
      using that bw by (simp add: add_at_other)
    from add_at_exact [OF this n d(2)] that show ?thesis
      by (simp add: r add_at_other)
  qed
  show "at (ratings (update_step g s)) w = at (ratings s) w" if "w = l"
  proof -
    have "int n < 2 ^ 58" using n by (rule nat_bound_int)
    then have "- (2 ^ 63) \<le> at (ratings s) w + d - d" "at (ratings s) w + d - d < 2 ^ 63"
      using bw [of w] by simp_all
    then have "int64 (at (ratings s) w + d - d) = at (ratings s) w"
      using int64_id [of "at (ratings s) w + d - d"] by simp
    then show ?thesis
      using r1 that [symmetric] by (simp add: r add_at_def at_def)
  qed
  show "at (ratings (update_step g s)) k = at (ratings s) k" if "k \<noteq> w" "k \<noteq> l"
    using that by (simp add: r add_at_other)
qed

lemma step_bounded:
  assumes "bounded n (ratings s)" "n < 2 ^ 58"
  shows "bounded (Suc n) (ratings (update_step g s))"
  unfolding bounded_def
proof
  fix k
  let ?w = "players g (winner_of g)" and ?l = "players g (opp (winner_of g))"
  have bw: "\<bar>at (ratings s) k\<bar> \<le> 1500 + 31 * int n" for k
    using assms(1) by (simp add: bounded_def)
  note e = step_exact [OF assms, where g = g]
  consider "k = ?w" "?w \<noteq> ?l" | "k = ?l" "?w \<noteq> ?l" | "k = ?w" "?w = ?l" | "k \<noteq> ?w" "k \<noteq> ?l"
    by atomize_elim auto
  then show "\<bar>at (ratings (update_step g s)) k\<bar> \<le> 1500 + 31 * int (Suc n)"
  proof cases
    case 1
    with e(1) game_delta_range [of g s] bw [of k] show ?thesis
      by (simp add: abs_if split: if_splits)
  next
    case 2
    with e(2) game_delta_range [of g s] bw [of k] show ?thesis
      by (simp add: abs_if split: if_splits)
  next
    case 3
    with e(3) bw [of k] show ?thesis by simp
  next
    case 4
    with e(4) bw [of k] show ?thesis by simp
  qed
qed

lemma loop_bounded:
  assumes "bounded n (ratings s)" "n + length gs \<le> 2 ^ 58"
  shows "bounded (n + length gs) (ratings (fold update_step gs s))"
  using assms
proof (induction gs arbitrary: n s)
  case Nil
  then show ?case by simp
next
  case (Cons g gs)
  from Cons.prems have "n < 2 ^ 58" by simp
  from step_bounded [OF Cons.prems(1) this]
  have "bounded (Suc n) (ratings (update_step g s))" .
  from Cons.IH [OF this] Cons.prems(2) show ?case by simp
qed

lemma loop_state_bounded:
  assumes "i \<le> length games" "length games \<le> 2 ^ 58"
  shows "bounded i (ratings (rating_loop_state games i))"
proof -
  have "bounded 0 (ratings (fold init_step games empty_state))"
    by (rule bounded_init) (simp add: empty_state_def bounded_empty)
  moreover have "length (take i games) = i" using assms(1) by simp
  ultimately show ?thesis
    using loop_bounded [of 0 "fold init_step games empty_state" "take i games"] assms
    by (simp add: rating_loop_state_def)
qed

lemma loop_state_Suc:
  "i < length games \<Longrightarrow>
     rating_loop_state games (Suc i) = update_step (games ! i) (rating_loop_state games i)"
  by (simp add: rating_loop_state_def take_Suc_conv_app_nth)

lemma winner_of_cases:
  "result g = kBlackWin \<Longrightarrow> winner_of g = kBlack"
  "result g \<noteq> kBlackWin \<Longrightarrow> winner_of g = kWhite"
  by (simp_all add: winner_of_def)

text \<open>
  Claim C8.  Let a game be processed by the update loop (the draws have been left out
  when the games were read), with Black played by \<open>black\<close> and White by \<open>white\<close>.  The delta
  applied lies between 1 and 31; it is the clamped delta of lines 459-460 computed from
  the rating of the player who won and the rating of the player who lost.  When the two
  players are distinct, the rating of the player who won (\<open>black\<close> when the result is a
  win of Black, \<open>white\<close> when it is a win of White) goes up by exactly the delta, the
  rating of the other player goes down by exactly the delta, and the sum of the two
  ratings is unchanged.  The statements on the delta hold in every case.  The statements
  on the ratings are made for a vector of at most \<open>2 ^ 58\<close> games, which keeps the 64-bit
  ratings from overflowing.  For at most \<open>2 ^ 25\<close> games the \<^verbatim>\<open>int\<close> locals do not
  overflow either, and the delta is the clamped value of
  \<open>16 + (loser_rating - winner_rating) / 25\<close>.
\<close>

theorem rating_update_zero_sum:
  assumes "i < length games"
  shows
    "let g = games ! i;
         s = rating_loop_state games i;
         s' = rating_loop_state games (Suc i);
         black = players g kBlack;
         white = players g kWhite;
         delta = game_delta g s
     in 1 \<le> delta \<and> delta \<le> 31
      \<and> (result g = kBlackWin \<longrightarrow>
           delta = rating_delta (int32 (at (ratings s) black)) (int32 (at (ratings s) white)))
      \<and> (result g = kWhiteWin \<longrightarrow>
           delta = rating_delta (int32 (at (ratings s) white)) (int32 (at (ratings s) black)))
      \<and> (length games \<le> 2 ^ 58 \<and> black \<noteq> white \<longrightarrow>
           (result g = kBlackWin \<longrightarrow>
              at (ratings s') black = at (ratings s) black + delta
            \<and> at (ratings s') black > at (ratings s) black
            \<and> at (ratings s') white = at (ratings s) white - delta
            \<and> at (ratings s') white < at (ratings s) white)
         \<and> (result g = kWhiteWin \<longrightarrow>
              at (ratings s') white = at (ratings s) white + delta
            \<and> at (ratings s') white > at (ratings s) white
            \<and> at (ratings s') black = at (ratings s) black - delta
            \<and> at (ratings s') black < at (ratings s) black)
         \<and> at (ratings s') black + at (ratings s') white
             = at (ratings s) black + at (ratings s) white)
      \<and> (length games \<le> 2 ^ 25 \<longrightarrow>
           (result g = kBlackWin \<longrightarrow>
              delta = max 1 (min (16 + trunc_div (at (ratings s) white - at (ratings s) black) 25) 31))
         \<and> (result g = kWhiteWin \<longrightarrow>
              delta = max 1 (min (16 + trunc_div (at (ratings s) black - at (ratings s) white) 25) 31)))"
proof -
  let ?g = "games ! i"
  let ?s = "rating_loop_state games i"
  let ?s' = "update_step ?g ?s"
  let ?b = "players ?g kBlack"
  let ?w = "players ?g kWhite"
  let ?d = "game_delta ?g ?s"
  have r: "1 \<le> ?d \<and> ?d \<le> 31"
    by (rule game_delta_range)
  have db: "?d = rating_delta (int32 (at (ratings ?s) ?b)) (int32 (at (ratings ?s) ?w))"
    if "result ?g = kBlackWin"
    using that by (simp add: game_delta_def winner_of_def)
  have dw: "?d = rating_delta (int32 (at (ratings ?s) ?w)) (int32 (at (ratings ?s) ?b))"
    if "result ?g = kWhiteWin"
    using that by (simp add: game_delta_def winner_of_def)
  have ub: "at (ratings ?s') ?b = at (ratings ?s) ?b + ?d \<and> at (ratings ?s') ?b > at (ratings ?s) ?b
      \<and> at (ratings ?s') ?w = at (ratings ?s) ?w - ?d \<and> at (ratings ?s') ?w < at (ratings ?s) ?w"
    if n: "length games \<le> 2 ^ 58" and ne: "?b \<noteq> ?w" and res: "result ?g = kBlackWin"
  proof -
    have b: "bounded i (ratings ?s)"
      using loop_state_bounded [of i games] assms n by simp
    have i: "i < 2 ^ 58" using assms n by simp
    from step_exact(1,2) [OF b i, where g = ?g] ne r show ?thesis
      by (simp add: winner_of_cases(1) [OF res])
  qed
  have uw: "at (ratings ?s') ?w = at (ratings ?s) ?w + ?d \<and> at (ratings ?s') ?w > at (ratings ?s) ?w
      \<and> at (ratings ?s') ?b = at (ratings ?s) ?b - ?d \<and> at (ratings ?s') ?b < at (ratings ?s) ?b"
    if n: "length games \<le> 2 ^ 58" and ne: "?b \<noteq> ?w" and res: "result ?g \<noteq> kBlackWin"
  proof -
    have b: "bounded i (ratings ?s)"
      using loop_state_bounded [of i games] assms n by simp
    have i: "i < 2 ^ 58" using assms n by simp
    from step_exact(1,2) [OF b i, where g = ?g] ne r show ?thesis
      by (simp add: winner_of_cases(2) [OF res])
  qed
  have us: "at (ratings ?s') ?b + at (ratings ?s') ?w = at (ratings ?s) ?b + at (ratings ?s) ?w"
    if n: "length games \<le> 2 ^ 58" and ne: "?b \<noteq> ?w"
    using ub [OF n ne] uw [OF n ne] by (cases "result ?g = kBlackWin") simp_all
  have xb: "?d = max 1 (min (16 + trunc_div (at (ratings ?s) ?w - at (ratings ?s) ?b) 25) 31)"
    if n: "length games \<le> 2 ^ 25" and res: "result ?g = kBlackWin"
  proof -
    have b: "bounded i (ratings ?s)"
      using loop_state_bounded [of i games] assms n by simp
    have i: "i < 2 ^ 25" using assms n by simp
    from game_delta_exact [OF b i, of ?g] show ?thesis
      by (simp add: winner_of_cases(1) [OF res])
  qed
  have xw: "?d = max 1 (min (16 + trunc_div (at (ratings ?s) ?b - at (ratings ?s) ?w) 25) 31)"
    if n: "length games \<le> 2 ^ 25" and res: "result ?g = kWhiteWin"
  proof -
    have b: "bounded i (ratings ?s)"
      using loop_state_bounded [of i games] assms n by simp
    have i: "i < 2 ^ 25" using assms n by simp
    have nb: "result ?g \<noteq> kBlackWin" using res by simp
    from game_delta_exact [OF b i, of ?g] show ?thesis
      by (simp add: winner_of_cases(2) [OF nb])
  qed
  have uw': "at (ratings ?s') ?w = at (ratings ?s) ?w + ?d \<and> at (ratings ?s') ?w > at (ratings ?s) ?w
      \<and> at (ratings ?s') ?b = at (ratings ?s) ?b - ?d \<and> at (ratings ?s') ?b < at (ratings ?s) ?b"
    if "length games \<le> 2 ^ 58" "?b \<noteq> ?w" "result ?g = kWhiteWin"
    using uw [OF that(1,2)] that(3) by simp
  from r db dw ub uw' us xb xw show ?thesis
    unfolding Let_def loop_state_Suc [OF assms] by blast
qed

theorem rating_update_zero_sum_witness:
  "result sample_game1 = kBlackWin \<and> players sample_game1 kBlack = ''A''
   \<and> players sample_game1 kWhite = ''B''
   \<and> 1 \<le> game_delta sample_game1 (rating_loop_state [sample_game1, sample_game2] 0)
   \<and> game_delta sample_game1 (rating_loop_state [sample_game1, sample_game2] 0) \<le> 31
   \<and> at (ratings (rating_loop_state [sample_game1, sample_game2] (Suc 0))) ''A''
       = at (ratings (rating_loop_state [sample_game1, sample_game2] 0)) ''A''
         + game_delta sample_game1 (rating_loop_state [sample_game1, sample_game2] 0)
   \<and> at (ratings (rating_loop_state [sample_game1, sample_game2] (Suc 0))) ''B''
       = at (ratings (rating_loop_state [sample_game1, sample_game2] 0)) ''B''
         - game_delta sample_game1 (rating_loop_state [sample_game1, sample_game2] 0)
   \<and> result sample_game2 = kWhiteWin \<and> players sample_game2 kBlack = ''C''
   \<and> players sample_game2 kWhite = ''A''
   \<and> at (ratings (rating_loop_state [sample_game1, sample_game2] (Suc 1))) ''A''
       = at (ratings (rating_loop_state [sample_game1, sample_game2] 1)) ''A''
         + game_delta sample_game2 (rating_loop_state [sample_game1, sample_game2] 1)
   \<and> at (ratings (rating_loop_state [sample_game1, sample_game2] (Suc 1))) ''C''
       = at (ratings (rating_loop_state [sample_game1, sample_game2] 1)) ''C''
         - game_delta sample_game2 (rating_loop_state [sample_game1, sample_game2] 1)"
proof -
  have p1: "result sample_game1 = kBlackWin" "players sample_game1 kBlack = ''A''"
    "players sample_game1 kWhite = ''B''"
    by (simp_all add: sample_game1_def)
  have p2: "result sample_game2 = kWhiteWin" "players sample_game2 kBlack = ''C''"
    "players sample_game2 kWhite = ''A''"
    by (simp_all add: sample_game2_def)
  have g: "[sample_game1, sample_game2] ! 0 = sample_game1"
    "[sample_game1, sample_game2] ! 1 = sample_game2" by simp_all
  have h: "(0::nat) < length [sample_game1, sample_game2]"
    "(1::nat) < length [sample_game1, sample_game2]" by simp_all
  have n: "length [sample_game1, sample_game2] \<le> 2 ^ 58" by simp
  from rating_update_zero_sum [OF h(1)] rating_update_zero_sum [OF h(2)] n p1 p2
  show ?thesis
    unfolding Let_def g by simp
qed

section \<open>Properties of the mate search\<close>

lemma mate1_loop_Some:
  "mate1_loop R pos ms = Some m \<Longrightarrow> m \<in> set ms \<and> legal_evasions R (do_move R pos m) = []"
  by (induction ms) (auto split: if_splits)

lemma mate1_loop_None:
  "mate1_loop R pos ms = None \<longleftrightarrow> (\<forall>m\<in>set ms. legal_evasions R (do_move R pos m) \<noteq> [])"
  by (induction ms) auto

lemma replies_loop_iff:
  "replies_loop R pos rs \<longleftrightarrow> (\<forall>r\<in>set rs. IsMateInOnePly R (do_move R pos r) \<noteq> None)"
  by (induction rs) auto

lemma mate3_loop_Some:
  "mate3_loop R pos ms = Some res \<Longrightarrow>
     mate_move res \<in> set ms
   \<and> replies_loop R (do_move R pos (mate_move res)) (legal_moves R (do_move R pos (mate_move res)))"
  by (induction ms) (auto split: if_splits)

lemma toy_mate1: "IsMateInOnePly toy_rules 2 = Some (DropMove (Piece kBlack kGold) (Square 4 2))"
  by (simp add: IsMateInOnePly_def toy_rules_def)

lemma toy_no_mate1: "IsMateInOnePly toy_rules 0 = None"
  by (simp add: IsMateInOnePly_def toy_rules_def)

lemma toy_mate3:
  "IsMateInThreePlies toy_rules 0 = Some \<lparr>mate_move = DropMove (Piece kBlack kGold) (Square 5 2)\<rparr>"
  by (simp add: IsMateInThreePlies_def IsMateInOnePly_def toy_rules_def)

text \<open>
  Claim C6.  When \<^verbatim>\<open>IsMateInThreePlies\<close> succeeds on a position with the first move \<open>M\<close>,
  \<^verbatim>\<open>IsMateInOnePly\<close> succeeds on the position after \<open>M\<close> and \<open>r\<close>, for every legal reply
  \<open>r\<close> of the opponent to \<open>M\<close>; and \<open>M\<close> is one of the checking moves of the position.
\<close>

theorem mate3_replies_are_mated:
  assumes "IsMateInThreePlies R P = Some res"
    and "r \<in> set (legal_moves R (do_move R P (mate_move res)))"
  shows "(\<exists>m. IsMateInOnePly R (do_move R (do_move R P (mate_move res)) r) = Some m)
       \<and> mate_move res \<in> set (checking_moves R P)"
  using mate3_loop_Some [of R P "checking_moves R P" res] assms
  by (auto simp: IsMateInThreePlies_def replies_loop_iff)

theorem mate3_replies_are_mated_witness:
  "IsMateInThreePlies toy_rules 0 = Some \<lparr>mate_move = DropMove (Piece kBlack kGold) (Square 5 2)\<rparr>
   \<and> BoardMove (Piece kWhite kKing) (Square 5 1) (Square 4 1) False
       \<in> set (legal_moves toy_rules (do_move toy_rules 0 (DropMove (Piece kBlack kGold) (Square 5 2))))
   \<and> (\<exists>m. IsMateInOnePly toy_rules
            (do_move toy_rules (do_move toy_rules 0 (DropMove (Piece kBlack kGold) (Square 5 2)))
               (BoardMove (Piece kWhite kKing) (Square 5 1) (Square 4 1) False)) = Some m)"
proof -
  have r: "BoardMove (Piece kWhite kKing) (Square 5 1) (Square 4 1) False
      \<in> set (legal_moves toy_rules (do_move toy_rules 0
                (mate_move \<lparr>mate_move = DropMove (Piece kBlack kGold) (Square 5 2)\<rparr>)))"
    by (simp add: toy_rules_def)
  from mate3_replies_are_mated [OF toy_mate3 r] toy_mate3 r show ?thesis by simp
qed

text \<open>
  Claim C7.  \<^verbatim>\<open>IsMateInOnePly\<close> returns a move if and only if the side to move has a
  checking move after which the opponent has no legal evasion, and the move returned is
  such a move; when there is no such move the result is the empty result, which is a
  value and not an error.
\<close>

theorem mate1_exact:
  "((\<exists>m. IsMateInOnePly R P = Some m) \<longleftrightarrow>
      (\<exists>m\<in>set (checking_moves R P). legal_evasions R (do_move R P m) = []))
   \<and> (IsMateInOnePly R P = None \<longleftrightarrow>
      \<not> (\<exists>m\<in>set (checking_moves R P). legal_evasions R (do_move R P m) = []))
   \<and> (\<forall>m. IsMateInOnePly R P = Some m \<longrightarrow>
      m \<in> set (checking_moves R P) \<and> legal_evasions R (do_move R P m) = [])"
  using mate1_loop_None [of R P "checking_moves R P"]
    mate1_loop_Some [of R P "checking_moves R P"]
  by (auto simp: IsMateInOnePly_def)

theorem mate1_exact_witness:
  "IsMateInOnePly toy_rules 2 = Some (DropMove (Piece kBlack kGold) (Square 4 2))
   \<and> (\<exists>m\<in>set (checking_moves toy_rules 2). legal_evasions toy_rules (do_move toy_rules 2 m) = [])
   \<and> IsMateInOnePly toy_rules 0 = None
   \<and> \<not> (\<exists>m\<in>set (checking_moves toy_rules 0). legal_evasions toy_rules (do_move toy_rules 0 m) = [])"
  using mate1_exact [of toy_rules 2] mate1_exact [of toy_rules 0] toy_mate1 toy_no_mate1
  by simp

section \<open>Properties of the dispatcher\<close>

text \<open>
  Claim C9.  Called with fewer than two arguments, \<^verbatim>\<open>Cli::ExecuteCommand\<close> prints
  \<^verbatim>\<open>CLI: No command.\<close> and returns; called with a command that it does not know, it prints
  \<^verbatim>\<open>CLI: No such command.\<close> followed by the command.  In both cases this text is all it
  does: no benchmark, learner or generator is called.
\<close>

theorem unknown_command_only_prints:
  "(length argv < 2 \<longrightarrow>
      ExecuteCommand argv = [Printf (''CLI: No command.'' @ [CHR 0x0A])]
    \<and> \<not> list_ex is_call (ExecuteCommand argv))
 \<and> (2 \<le> length argv \<and> argv ! 1 \<notin> set known_commands \<longrightarrow>
      ExecuteCommand argv = [Printf (''CLI: No such command. '' @ argv ! 1 @ [CHR 0x0A])]
    \<and> \<not> list_ex is_call (ExecuteCommand argv))"
  by (simp add: ExecuteCommand_def known_commands_def Let_def)

theorem unknown_command_only_prints_witness:
  "length [''gikou''] < 2
   \<and> ExecuteCommand [''gikou''] = [Printf (''CLI: No command.'' @ [CHR 0x0A])]
   \<and> 2 \<le> length [''gikou'', ''--perft'', ''5'']
   \<and> [''gikou'', ''--perft'', ''5''] ! 1 \<notin> set known_commands
   \<and> ExecuteCommand [''gikou'', ''--perft'', ''5'']
       = [Printf (''CLI: No such command. --perft'' @ [CHR 0x0A])]"
proof -
  have a: "length [''gikou''] < 2" by simp
  have b: "2 \<le> length [''gikou'', ''--perft'', ''5'']"
    "[''gikou'', ''--perft'', ''5''] ! 1 \<notin> set known_commands"
    by (simp_all add: known_commands_def)
  from unknown_command_only_prints [of "[''gikou'']"]
    unknown_command_only_prints [of "[''gikou'', ''--perft'', ''5'']"] a b
  show ?thesis by simp
qed

text \<open>
  Claim C10.  Every call of \<^verbatim>\<open>BenchmarkMateSearch\<close> that \<^verbatim>\<open>Cli::ExecuteCommand\<close> makes
  passes the ply 1 (for the command \<^verbatim>\<open>--bench-mate1\<close>) or the ply 3 (for the command
  \<^verbatim>\<open>--bench-mate3\<close>), so that the assertion at the entry of \<^verbatim>\<open>BenchmarkMateSearch\<close> holds.
\<close>

theorem mate_benchmark_ply_asserted:
  assumes "BenchmarkMateSearch n ply \<in> set (ExecuteCommand argv)"
  shows "BenchmarkMateSearch_assertion n ply
     \<and> (ply = 1 \<longleftrightarrow> argv ! 1 = ''--bench-mate1'')
     \<and> (ply = 3 \<longleftrightarrow> argv ! 1 = ''--bench-mate3'')"
  using assms
  by (simp add: ExecuteCommand_def BenchmarkMateSearch_assertion_def Let_def split: if_splits)

theorem mate_benchmark_ply_asserted_witness:
  "BenchmarkMateSearch 12 3 \<in> set (ExecuteCommand [''gikou'', ''--bench-mate3'', '' 12x''])
   \<and> BenchmarkMateSearch_assertion 12 3
   \<and> BenchmarkMateSearch 1 1 \<in> set (ExecuteCommand [''gikou'', ''--bench-mate1''])
   \<and> BenchmarkMateSearch_assertion 1 1"
proof -
  have "atoi '' 12x'' = 12"
    by (simp add: atoi_def strtol_def decimal_value_def is_space_def is_digit_def int32_id)
  then have a: "BenchmarkMateSearch 12 3
      \<in> set (ExecuteCommand [''gikou'', ''--bench-mate3'', '' 12x''])"
    by (simp add: ExecuteCommand_def)
  have b: "BenchmarkMateSearch 1 1 \<in> set (ExecuteCommand [''gikou'', ''--bench-mate1''])"
    by (simp add: ExecuteCommand_def)
  from mate_benchmark_ply_asserted [OF a] mate_benchmark_ply_asserted [OF b] a b
  show ?thesis by simp
qed

end
